theory Spec2Isabelle
  imports Main "HOL-Library.AList"
begin

section \<open>Python strings\<close>

text \<open>
  The portfolio backend (\<^verbatim>\<open>src/python/app.py\<close>) works on Python \<^verbatim>\<open>str\<close> values. A
  \<^typ>\<open>string\<close> stands for a \<^verbatim>\<open>str\<close> whose code points lie in U+0000 .. U+00FF; the
  character numbered \<open>n\<close> is the code point \<open>n\<close>.

  \<^verbatim>\<open>str.lower\<close> maps A-Z (65..90) and the Latin-1 capitals (192..222 without the
  multiplication sign 215) to the code point 32 above, and leaves every other code point
  of this range alone.
\<close>

definition lower_char :: "char \<Rightarrow> char" where
  "lower_char c =
     (let n = (of_char c :: nat)
      in if (65 \<le> n \<and> n \<le> 90) \<or> (192 \<le> n \<and> n \<le> 222 \<and> n \<noteq> 215)
         then char_of (n + 32) else c)"

definition str_lower :: "string \<Rightarrow> string" where
  "str_lower s = map lower_char s"

text \<open>
  \<^verbatim>\<open>s.replace(old, new)\<close> replaces the occurrences of \<open>old\<close> from the left, without
  overlap; with an empty \<open>old\<close> it puts \<open>new\<close> before every character and at the end.
\<close>

function str_replace :: "string \<Rightarrow> string \<Rightarrow> string \<Rightarrow> string" where
  "str_replace old new [] = (if old = [] then new else [])"
| "str_replace old new (c # cs) =
     (if old = [] then new @ c # str_replace old new cs
      else if take (length old) (c # cs) = old
           then new @ str_replace old new (drop (length old) (c # cs))
           else c # str_replace old new cs)"
  by pat_completeness auto
termination
  by (relation "measure (\<lambda>(old, new, s). length s)") auto

text \<open>
  The category slug. The source has no function of this name: it writes the expression
  \<^verbatim>\<open>category['category'].lower().replace(' & ', '-').replace(' ', '-')\<close> in
  \<^verbatim>\<open>get_projects\<close>, \<^verbatim>\<open>get_projects_by_category\<close> and \<^verbatim>\<open>get_project\<close>.
\<close>

definition slugify :: "string \<Rightarrow> string" where
  "slugify label = str_replace '' '' ''-'' (str_replace '' & '' ''-'' (str_lower label))"

text \<open>
  \<^verbatim>\<open>s.split(sep)\<close> with a one-character separator: the pieces between the separators,
  always at least one piece.
\<close>

fun str_split :: "char \<Rightarrow> string \<Rightarrow> string list" where
  "str_split sep [] = [[]]"
| "str_split sep (c # cs) =
     (if c = sep then [] # str_split sep cs
      else (case str_split sep cs of
              [] \<Rightarrow> [[c]]
            | p # ps \<Rightarrow> (c # p) # ps))"

text \<open>
  \<^verbatim>\<open>int(s)\<close> on a \<^verbatim>\<open>str\<close>: white space around the numeral is dropped; the numeral is an
  optional sign followed by decimal digits, where single underscores may stand between
  digits. Anything else raises \<^verbatim>\<open>ValueError\<close>, which is \<open>None\<close> here. The white space
  of the modelled range is 9..13, 32, 133 and 160. A numeral of more digits than the
  interpreter's limit (4300 unless configured otherwise) raises \<^verbatim>\<open>ValueError\<close> as well.
\<close>

definition max_str_digits :: nat where
  "max_str_digits = 4300"

definition is_space :: "char \<Rightarrow> bool" where
  "is_space c =
     (let n = (of_char c :: nat) in (9 \<le> n \<and> n \<le> 13) \<or> n = 32 \<or> n = 133 \<or> n = 160)"

definition is_digit :: "char \<Rightarrow> bool" where
  "is_digit c = (let n = (of_char c :: nat) in 48 \<le> n \<and> n \<le> 57)"

definition strip :: "string \<Rightarrow> string" where
  "strip s = rev (dropWhile is_space (rev (dropWhile is_space s)))"

fun digits_ok :: "string \<Rightarrow> bool" where
  "digits_ok [] = False"
| "digits_ok [c] = is_digit c"
| "digits_ok (c # d # r) =
     (is_digit c \<and> (if d = CHR ''_'' then digits_ok r else digits_ok (d # r)))"

definition numeral_ok :: "string \<Rightarrow> bool" where
  "numeral_ok s = (digits_ok s \<and> length (filter is_digit s) \<le> max_str_digits)"

definition digits_value :: "string \<Rightarrow> nat" where
  "digits_value s =
     foldl (\<lambda>a c. 10 * a + (of_char c - 48)) 0 (filter (\<lambda>c. c \<noteq> CHR ''_'') s)"

definition py_int :: "string \<Rightarrow> int option" where
  "py_int s =
     (case strip s of
        [] \<Rightarrow> None
      | c # r \<Rightarrow>
          if c = CHR ''+'' then (if numeral_ok r then Some (int (digits_value r)) else None)
          else if c = CHR ''-'' then (if numeral_ok r then Some (- int (digits_value r)) else None)
          else if numeral_ok (c # r) then Some (int (digits_value (c # r))) else None)"

text \<open>The decimal numeral of a natural number, as \<^verbatim>\<open>f"{i}"\<close> renders a loop index.\<close>

fun str_nat :: "nat \<Rightarrow> string" where
  "str_nat n =
     (if n < 10 then [char_of (48 + n)]
      else str_nat (n div 10) @ [char_of (48 + n mod 10)])"

declare str_nat.simps [simp del]

text \<open>\<^verbatim>\<open>s.endswith(suffix)\<close>.\<close>

definition endswith :: "string \<Rightarrow> string \<Rightarrow> bool" where
  "endswith s suffix =
     (length suffix \<le> length s \<and> drop (length s - length suffix) s = suffix)"

section \<open>Python values and the object store\<close>

text \<open>
  \<^verbatim>\<open>yaml.safe_load\<close> returns a graph of Python objects. The handlers change
  dictionaries in place (\<^verbatim>\<open>project['id'] = ...\<close>), and a YAML alias makes one
  dictionary appear at several places of the document, so dictionaries live in a store
  and a value refers to one by its address. Lists and scalars are never changed by this
  program and are plain values. A dictionary keeps its keys in insertion order; the keys
  are strings. Floats and timestamps are not modelled: in every operation used below
  they behave as \<open>PInt\<close> does. A list is a value, so a list that contains itself
  without passing through a dictionary has no counterpart here; a dictionary that
  contains itself has.
\<close>

type_synonym addr = nat

datatype pyval =
    PNone
  | PBool bool
  | PInt int
  | PStr string
  | PList "pyval list"
  | PDict addr

type_synonym pydict = "(string \<times> pyval) list"

type_synonym heap = "pydict list"

text \<open>
  The exceptions that leave a handler uncaught (Flask answers them with status 500);
  \<open>ValueError\<close> is what the JSON encoder raises on a circular reference.
  \<open>Dangling\<close> is not a Python exception: it marks the read of an address outside the
  store, which no loaded document contains.
\<close>

datatype exn = AttributeError | KeyError | TypeError | ValueError | OSError | Dangling

definition deref :: "heap \<Rightarrow> addr \<Rightarrow> pydict option" where
  "deref h a = (if a < length h then Some (h ! a) else None)"

text \<open>\<^verbatim>\<open>v.get(key, default)\<close>: only a dictionary has the method.\<close>

definition dict_get :: "heap \<Rightarrow> pyval \<Rightarrow> string \<Rightarrow> pyval \<Rightarrow> exn + pyval" where
  "dict_get h v key dflt =
     (case v of
        PDict a \<Rightarrow>
          (case deref h a of
             None \<Rightarrow> Inl Dangling
           | Some d \<Rightarrow> (case map_of d key of None \<Rightarrow> Inr dflt | Some x \<Rightarrow> Inr x))
      | _ \<Rightarrow> Inl AttributeError)"

text \<open>\<^verbatim>\<open>v[key]\<close> with a string key.\<close>

definition getitem :: "heap \<Rightarrow> pyval \<Rightarrow> string \<Rightarrow> exn + pyval" where
  "getitem h v key =
     (case v of
        PDict a \<Rightarrow>
          (case deref h a of
             None \<Rightarrow> Inl Dangling
           | Some d \<Rightarrow> (case map_of d key of None \<Rightarrow> Inl KeyError | Some x \<Rightarrow> Inr x))
      | _ \<Rightarrow> Inl TypeError)"

text \<open>\<^verbatim>\<open>v[i]\<close> with an integer \<open>i\<close> that the caller has checked to be in \<open>0 .. len(v) - 1\<close>.\<close>

definition getitem_int :: "heap \<Rightarrow> pyval \<Rightarrow> nat \<Rightarrow> exn + pyval" where
  "getitem_int h v i =
     (case v of
        PList xs \<Rightarrow> Inr (xs ! i)
      | PStr s \<Rightarrow> Inr (PStr [s ! i])
      | PDict a \<Rightarrow> Inl KeyError
      | _ \<Rightarrow> Inl TypeError)"

text \<open>\<^verbatim>\<open>v[key] = x\<close> with a string key: the dictionary at the address is updated in place.\<close>

definition setitem :: "heap \<Rightarrow> pyval \<Rightarrow> string \<Rightarrow> pyval \<Rightarrow> exn + heap" where
  "setitem h v key x =
     (case v of
        PDict a \<Rightarrow>
          (case deref h a of
             None \<Rightarrow> Inl Dangling
           | Some d \<Rightarrow> Inr (h[a := AList.update key x d]))
      | _ \<Rightarrow> Inl TypeError)"

text \<open>
  The items a \<^verbatim>\<open>for\<close> loop visits: the elements of a list, the characters of a string,
  the keys of a dictionary.
\<close>

definition py_iter :: "heap \<Rightarrow> pyval \<Rightarrow> exn + pyval list" where
  "py_iter h v =
     (case v of
        PList xs \<Rightarrow> Inr xs
      | PStr s \<Rightarrow> Inr (map (\<lambda>c. PStr [c]) s)
      | PDict a \<Rightarrow>
          (case deref h a of None \<Rightarrow> Inl Dangling | Some d \<Rightarrow> Inr (map (\<lambda>kv. PStr (fst kv)) d))
      | _ \<Rightarrow> Inl TypeError)"

definition py_len :: "heap \<Rightarrow> pyval \<Rightarrow> exn + nat" where
  "py_len h v =
     (case v of
        PList xs \<Rightarrow> Inr (length xs)
      | PStr s \<Rightarrow> Inr (length s)
      | PDict a \<Rightarrow> (case deref h a of None \<Rightarrow> Inl Dangling | Some d \<Rightarrow> Inr (length d))
      | _ \<Rightarrow> Inl TypeError)"

text \<open>
  \<^verbatim>\<open>v.lower().replace(' & ', '-').replace(' ', '-')\<close>: only a string has \<^verbatim>\<open>lower\<close>.
\<close>

definition slug_of :: "pyval \<Rightarrow> exn + string" where
  "slug_of v = (case v of PStr s \<Rightarrow> Inr (slugify s) | _ \<Rightarrow> Inl AttributeError)"

section \<open>Loading\<close>

text \<open>
  What opening and parsing a YAML file does is an input of the model: either an
  exception (a missing or unparsable file), or the object graph that
  \<^verbatim>\<open>yaml.safe_load\<close> built. \<^verbatim>\<open>load_yaml_data\<close> catches the exception, prints it and
  returns a new empty dictionary; the printed line is not part of the model.
\<close>

datatype source = Unreadable | Parsed heap pyval

definition load_yaml_data :: "source \<Rightarrow> heap \<times> pyval" where
  "load_yaml_data src =
     (case src of
        Unreadable \<Rightarrow> ([[]], PDict 0)
      | Parsed h v \<Rightarrow> (h, v))"

definition load_project_data :: "source \<Rightarrow> heap \<times> pyval" where
  "load_project_data src = load_yaml_data src"

section \<open>Responses\<close>

text \<open>
  A body is the structure a handler hands to \<^verbatim>\<open>jsonify\<close>: new dictionaries and lists
  (\<open>Obj\<close>, \<open>Arr\<close>) around values of the store (\<open>Ser\<close>), which are serialised as they are
  in the store at that moment.
\<close>

datatype body = Ser pyval | Arr "body list" | Obj "(string \<times> body) list"

datatype response = Response (status: nat) (payload: body)

definition error_body :: "string \<Rightarrow> body" where
  "error_body msg = Obj [(''error'', Ser (PStr msg))]"

text \<open>
  The JSON encoder behind \<^verbatim>\<open>jsonify\<close> walks the object graph depth first and keeps the
  containers it is inside (\<open>markers\<close>); when it meets one of them again it raises
  \<^verbatim>\<open>ValueError\<close> (circular reference). An object met twice on different branches is
  written twice. \<open>json_error\<close> is the exception of this walk, \<open>None\<close> when it ends.
  Every other value of the model can be written, and the rendering as text and the
  interpreter's recursion limit are not part of the model.
\<close>

fun first_error :: "exn option list \<Rightarrow> exn option" where
  "first_error [] = None"
| "first_error (None # rest) = first_error rest"
| "first_error (Some e # rest) = Some e"

function (sequential) json_error :: "heap \<Rightarrow> addr list \<Rightarrow> pyval \<Rightarrow> exn option" where
  "json_error h markers (PList xs) = first_error (map (json_error h markers) xs)"
| "json_error h markers (PDict a) =
     (if a \<in> set markers then Some ValueError
      else (case deref h a of
              None \<Rightarrow> Some Dangling
            | Some d \<Rightarrow> first_error (map (\<lambda>kv. json_error h (a # markers) (snd kv)) d)))"
| "json_error h markers v = None"
  by pat_completeness auto
termination
proof (relation "(\<lambda>(h, markers, v). length (filter (\<lambda>a. a \<notin> set markers) [0..<length h]))
                   <*mlex*> measure (\<lambda>(h, markers, v). size v)")
  show "wf ((\<lambda>(h, markers, v). length (filter (\<lambda>a. a \<notin> set markers) [0..<length h]))
                   <*mlex*> measure (\<lambda>(h, markers, v). size v))"
    by (simp add: wf_mlex)
next
  fix h :: heap and markers :: "addr list" and xs :: "pyval list" and x
  assume "x \<in> set xs"
  then have "size x < Suc (size_list size xs)"
    by (simp add: less_Suc_eq_le size_list_estimation')
  then show "((h, markers, x), (h, markers, PList xs))
      \<in> (\<lambda>(h, markers, v). length (filter (\<lambda>a. a \<notin> set markers) [0..<length h]))
                   <*mlex*> measure (\<lambda>(h, markers, v). size v)"
    by (simp add: mlex_leq)
next
  fix h :: heap and markers :: "addr list" and a d and kv :: "string \<times> pyval"
  assume new: "a \<notin> set markers" and cell: "deref h a = Some d"
  from cell have a: "a < length h" by (simp add: deref_def split: if_splits)
  have "filter (\<lambda>x. x \<notin> set (a # markers)) [0..<length h] =
        filter (\<lambda>x. x \<noteq> a) (filter (\<lambda>x. x \<notin> set markers) [0..<length h])"
    by (auto intro: filter_cong)
  moreover have "a \<in> set (filter (\<lambda>x. x \<notin> set markers) [0..<length h])"
    using a new by simp
  ultimately have "length (filter (\<lambda>x. x \<notin> set (a # markers)) [0..<length h]) <
        length (filter (\<lambda>x. x \<notin> set markers) [0..<length h])"
    using length_filter_less [of a "filter (\<lambda>x. x \<notin> set markers) [0..<length h]" "\<lambda>x. x \<noteq> a"]
    by simp
  then show "((h, a # markers, snd kv), (h, markers, PDict a))
      \<in> (\<lambda>(h, markers, v). length (filter (\<lambda>a. a \<notin> set markers) [0..<length h]))
                   <*mlex*> measure (\<lambda>(h, markers, v). size v)"
    by (simp add: mlex_less)
qed

text \<open>The new dictionaries and lists of a body are in no cycle: each value starts a walk.\<close>

fun body_error :: "heap \<Rightarrow> body \<Rightarrow> exn option" where
  "body_error h (Ser v) = json_error h [] v"
| "body_error h (Arr items) = first_error (map (body_error h) items)"
| "body_error h (Obj members) = first_error (map (\<lambda>kv. body_error h (snd kv)) members)"

text \<open>
  \<^verbatim>\<open>jsonify(b)\<close>, with the status code the handler returns beside it: the response, and
  the store in which its body is read, or the encoder's exception.
\<close>

definition jsonify :: "heap \<Rightarrow> nat \<Rightarrow> body \<Rightarrow> exn + response \<times> heap" where
  "jsonify h code b =
     (case body_error h b of
        Some e \<Rightarrow> Inl e
      | None \<Rightarrow> Inr (Response code b, h))"

text \<open>
  Two stores are alike when they hold the same dictionaries up to the scalars stored
  under their keys; a scalar is a value that is neither a list nor a dictionary. The
  encoder cannot tell such stores apart.
\<close>

definition leaf :: "pyval \<Rightarrow> bool" where
  "leaf v = (case v of PList xs \<Rightarrow> False | PDict a \<Rightarrow> False | _ \<Rightarrow> True)"

definition alike_item :: "string \<times> pyval \<Rightarrow> string \<times> pyval \<Rightarrow> bool" where
  "alike_item kv kv' = (fst kv = fst kv' \<and> (snd kv = snd kv' \<or> leaf (snd kv) \<and> leaf (snd kv')))"

definition alike :: "heap \<Rightarrow> heap \<Rightarrow> bool" where
  "alike h h' = (length h = length h' \<and> (\<forall>a < length h. list_all2 alike_item (h ! a) (h' ! a)))"

section \<open>The project handlers\<close>

subsection \<open>\<^verbatim>\<open>get_projects\<close>: the category listing\<close>

text \<open>The loop that builds one entry per category, in load order.\<close>

fun category_entries :: "heap \<Rightarrow> pyval list \<Rightarrow> exn + body list" where
  "category_entries h [] = Inr []"
| "category_entries h (category # rest) =
     (case getitem h category ''category'' of
        Inl e \<Rightarrow> Inl e
      | Inr name \<Rightarrow>
     (case slug_of name of
        Inl e \<Rightarrow> Inl e
      | Inr slug \<Rightarrow>
     (case dict_get h category ''projects'' (PList []) of
        Inl e \<Rightarrow> Inl e
      | Inr projects \<Rightarrow>
     (case py_len h projects of
        Inl e \<Rightarrow> Inl e
      | Inr n \<Rightarrow>
     (case category_entries h rest of
        Inl e \<Rightarrow> Inl e
      | Inr entries \<Rightarrow>
          Inr (Obj [(''id'', Ser (PStr slug)),
                    (''name'', Ser name),
                    (''projectCount'', Ser (PInt (int n)))] # entries))))))"

definition get_projects :: "source \<Rightarrow> exn + response \<times> heap" where
  "get_projects src =
     (let (h, projects_data) = load_project_data src
      in case dict_get h projects_data ''projects'' (PList []) of
           Inl e \<Rightarrow> Inl e
         | Inr listed \<Rightarrow>
        (case py_iter h listed of
           Inl e \<Rightarrow> Inl e
         | Inr categories \<Rightarrow>
        (case category_entries h categories of
           Inl e \<Rightarrow> Inl e
         | Inr entries \<Rightarrow> jsonify h 200 (Obj [(''categories'', Arr entries)]))))"

subsection \<open>\<^verbatim>\<open>get_projects_by_category\<close>\<close>

text \<open>
  \<^verbatim>\<open>for i, project in enumerate(projects): project['id'] = f"{category_id}-{i}"\<close>,
  started at index \<open>i\<close>.
\<close>

fun assign_ids :: "heap \<Rightarrow> string \<Rightarrow> nat \<Rightarrow> pyval list \<Rightarrow> exn + heap" where
  "assign_ids h category_id i [] = Inr h"
| "assign_ids h category_id i (project # rest) =
     (case setitem h project ''id'' (PStr (category_id @ ''-'' @ str_nat i)) of
        Inl e \<Rightarrow> Inl e
      | Inr h' \<Rightarrow> assign_ids h' category_id (Suc i) rest)"

text \<open>The scan for the first category whose slug is the requested one.\<close>

fun find_category :: "heap \<Rightarrow> string \<Rightarrow> pyval list \<Rightarrow> exn + response \<times> heap" where
  "find_category h category_id [] = jsonify h 404 (error_body ''Category not found'')"
| "find_category h category_id (category # rest) =
     (case getitem h category ''category'' of
        Inl e \<Rightarrow> Inl e
      | Inr name \<Rightarrow>
     (case slug_of name of
        Inl e \<Rightarrow> Inl e
      | Inr category_normalized \<Rightarrow>
          if category_normalized = category_id then
            (case dict_get h category ''projects'' (PList []) of
               Inl e \<Rightarrow> Inl e
             | Inr projects \<Rightarrow>
            (case py_iter h projects of
               Inl e \<Rightarrow> Inl e
             | Inr items \<Rightarrow>
            (case assign_ids h category_id 0 items of
               Inl e \<Rightarrow> Inl e
             | Inr h' \<Rightarrow>
            (case getitem h' category ''category'' of
               Inl e \<Rightarrow> Inl e
             | Inr shown \<Rightarrow>
                 jsonify h' 200
                   (Obj [(''category'', Ser shown), (''projects'', Ser projects)])))))
          else find_category h category_id rest))"

definition get_projects_by_category :: "source \<Rightarrow> string \<Rightarrow> exn + response \<times> heap" where
  "get_projects_by_category src category_id =
     (let (h, projects_data) = load_project_data src
      in case dict_get h projects_data ''projects'' (PList []) of
           Inl e \<Rightarrow> Inl e
         | Inr listed \<Rightarrow>
        (case py_iter h listed of
           Inl e \<Rightarrow> Inl e
         | Inr categories \<Rightarrow> find_category h category_id categories))"

subsection \<open>\<^verbatim>\<open>get_project\<close>\<close>

text \<open>
  The defaults that \<^verbatim>\<open>get_project\<close> stores in a project that lacks the field: a new
  list of three new dictionaries, and a new list of four strings.
\<close>

definition default_industry_applications :: "pydict list" where
  "default_industry_applications =
     [[(''industry'', PStr ''Financial Services''),
       (''application'', PStr ''Enhances regulatory compliance while enabling innovation'')],
      [(''industry'', PStr ''Technology Consulting''),
       (''application'', PStr ''Demonstrates expertise in complex system integration'')],
      [(''industry'', PStr ''Digital Transformation''),
       (''application'', PStr ''Shows ability to reimagine processes with technology'')]]"

definition default_capabilities :: "pyval" where
  "default_capabilities =
     PList [PStr ''Strategic vision and planning'',
            PStr ''Technical implementation expertise'',
            PStr ''Cross-functional team leadership'',
            PStr ''Innovation and creative problem-solving'']"

definition store_item :: "heap \<Rightarrow> addr \<Rightarrow> string \<Rightarrow> pyval \<Rightarrow> heap" where
  "store_item h a key x = h[a := AList.update key x (h ! a)]"

definition has_key :: "heap \<Rightarrow> addr \<Rightarrow> string \<Rightarrow> bool" where
  "has_key h a key = (map_of (h ! a) key \<noteq> None)"

text \<open>
  The three statements on the project found, a dictionary at address \<open>a\<close> of the store:
  the id is set to the requested identifier, then each default is stored if its key is
  absent. The three new dictionaries take the next free addresses.
\<close>

definition inject :: "heap \<Rightarrow> addr \<Rightarrow> string \<Rightarrow> heap" where
  "inject h a project_id =
     (let h1 = store_item h a ''id'' (PStr project_id);
          n = length h1;
          h2 = (if \<not> has_key h1 a ''industry_applications''
                then store_item (h1 @ default_industry_applications) a
                       ''industry_applications'' (PList [PDict n, PDict (n + 1), PDict (n + 2)])
                else h1);
          h3 = (if \<not> has_key h2 a ''capabilities''
                then store_item h2 a ''capabilities'' default_capabilities
                else h2)
      in h3)"

text \<open>
  \<^verbatim>\<open>project['id'] = project_id\<close> raises \<^verbatim>\<open>TypeError\<close> on anything but a dictionary;
  on a dictionary the handler goes on to the defaults and ends with
  \<^verbatim>\<open>jsonify(project)\<close>.
\<close>

definition return_project :: "heap \<Rightarrow> pyval \<Rightarrow> string \<Rightarrow> exn + response \<times> heap" where
  "return_project h project project_id =
     (case project of
        PDict a \<Rightarrow>
          (case deref h a of
             None \<Rightarrow> Inl Dangling
           | Some d \<Rightarrow> jsonify (inject h a project_id) 200 (Ser project))
      | _ \<Rightarrow> Inl TypeError)"

text \<open>
  The scan: a category whose slug matches but whose project list is too short is passed
  over, and the scan goes on to the next category. The test
  \<^verbatim>\<open>0 <= project_index < len(projects)\<close> is a chained comparison: \<^verbatim>\<open>len\<close> is called
  only when the index is not negative.
\<close>

fun find_project ::
  "heap \<Rightarrow> string \<Rightarrow> int \<Rightarrow> string \<Rightarrow> pyval list \<Rightarrow> exn + response \<times> heap" where
  "find_project h category_id project_index project_id [] =
     jsonify h 404 (error_body ''Project not found'')"
| "find_project h category_id project_index project_id (category # rest) =
     (case getitem h category ''category'' of
        Inl e \<Rightarrow> Inl e
      | Inr name \<Rightarrow>
     (case slug_of name of
        Inl e \<Rightarrow> Inl e
      | Inr category_normalized \<Rightarrow>
          if category_normalized = category_id then
            (case dict_get h category ''projects'' (PList []) of
               Inl e \<Rightarrow> Inl e
             | Inr projects \<Rightarrow>
               if 0 \<le> project_index then
                 (case py_len h projects of
                    Inl e \<Rightarrow> Inl e
                  | Inr n \<Rightarrow>
                      if project_index < int n then
                        (case getitem_int h projects (nat project_index) of
                           Inl e \<Rightarrow> Inl e
                         | Inr project \<Rightarrow> return_project h project project_id)
                      else find_project h category_id project_index project_id rest)
               else find_project h category_id project_index project_id rest)
          else find_project h category_id project_index project_id rest))"

definition get_project :: "source \<Rightarrow> string \<Rightarrow> exn + response \<times> heap" where
  "get_project src project_id =
     (let (h, projects_data) = load_project_data src;
          parts = str_split CHR ''-'' project_id
      in if length parts < 2 then jsonify h 400 (error_body ''Invalid project ID'')
         else
           (case py_int (parts ! 1) of
              None \<Rightarrow> jsonify h 400 (error_body ''Invalid project index'')
            | Some project_index \<Rightarrow>
           (case dict_get h projects_data ''projects'' (PList []) of
              Inl e \<Rightarrow> Inl e
            | Inr listed \<Rightarrow>
           (case py_iter h listed of
              Inl e \<Rightarrow> Inl e
            | Inr categories \<Rightarrow>
                find_project h (parts ! 0) project_index project_id categories))))"

subsection \<open>\<^verbatim>\<open>get_industry_project_relevance\<close>\<close>

definition relevance_entry :: "string list \<Rightarrow> string list \<Rightarrow> body" where
  "relevance_entry relevant highlight =
     Obj [(''relevant_projects'', Arr (map (\<lambda>p. Ser (PStr p)) relevant)),
          (''highlight_projects'', Arr (map (\<lambda>p. Ser (PStr p)) highlight))]"

definition relevance_map :: "(string \<times> body) list" where
  "relevance_map =
     [(''financial-services'',
         relevance_entry
           [''ai-technology-innovation-0'', ''ai-technology-innovation-1'',
            ''business-transformation-innovation-2'']
           [''ai-technology-innovation-0'']),
      (''tech-consulting'',
         relevance_entry
           [''ai-technology-innovation-1'', ''business-transformation-innovation-0'',
            ''business-transformation-innovation-2'']
           [''business-transformation-innovation-2'']),
      (''ai-implementation'',
         relevance_entry
           [''ai-technology-innovation-0'', ''ai-technology-innovation-1'',
            ''ai-technology-innovation-2'']
           [''ai-technology-innovation-1'']),
      (''digital-transformation'',
         relevance_entry
           [''strategic-vision-systems-thinking-1'', ''business-transformation-innovation-0'',
            ''business-transformation-innovation-1'']
           [''business-transformation-innovation-0'']),
      (''startup-innovation'',
         relevance_entry
           [''business-transformation-innovation-1'', ''creative-conceptual-development-0'',
            ''creative-conceptual-development-1'']
           [''creative-conceptual-development-1'']),
      (''custom'',
         relevance_entry
           [''ai-technology-innovation-0'', ''strategic-vision-systems-thinking-0'',
            ''business-transformation-innovation-0'', ''creative-conceptual-development-0'']
           [''strategic-vision-systems-thinking-0'', ''ai-technology-innovation-0''])]"

text \<open>
  \<^verbatim>\<open>relevance_map[key]\<close> raises \<^verbatim>\<open>KeyError\<close> on a key the table lacks. An entry holds
  strings only, which the encoder always writes; the same holds for the body of
  \<^verbatim>\<open>get_cv\<close> below.
\<close>

definition relevance_at :: "string \<Rightarrow> exn + body" where
  "relevance_at key =
     (case map_of relevance_map key of None \<Rightarrow> Inl KeyError | Some entry \<Rightarrow> Inr entry)"

definition get_industry_project_relevance :: "string \<Rightarrow> exn + response" where
  "get_industry_project_relevance industry_id =
     (if map_of relevance_map industry_id \<noteq> None
      then (case relevance_at industry_id of
              Inl e \<Rightarrow> Inl e | Inr entry \<Rightarrow> Inr (Response 200 entry))
      else (case relevance_at ''custom'' of
              Inl e \<Rightarrow> Inl e | Inr entry \<Rightarrow> Inr (Response 200 entry)))"

section \<open>The CV handler\<close>

text \<open>
  What the file system does is an input of the model: \<open>listing\<close> is the outcome of
  \<^verbatim>\<open>os.listdir(cv_dir)\<close>, \<open>reading\<close> the outcome of opening and reading a file of the
  directory, and \<open>markdown\<close> the renderer of the \<^verbatim>\<open>markdown\<close> package.
  \<^verbatim>\<open>load_cv_data\<close> has no \<^verbatim>\<open>try\<close>: an exception of either call leaves it.
\<close>

fun read_cv_files ::
  "(string \<Rightarrow> exn + string) \<Rightarrow> (string \<Rightarrow> string) \<Rightarrow> (string \<times> string) list \<Rightarrow>
   string list \<Rightarrow> exn + (string \<times> string) list" where
  "read_cv_files reading markdown cv_data [] = Inr cv_data"
| "read_cv_files reading markdown cv_data (file # rest) =
     (case reading file of
        Inl e \<Rightarrow> Inl e
      | Inr content \<Rightarrow>
          read_cv_files reading markdown (AList.update file (markdown content) cv_data) rest)"

definition load_cv_data ::
  "exn + string list \<Rightarrow> (string \<Rightarrow> exn + string) \<Rightarrow> (string \<Rightarrow> string) \<Rightarrow>
   exn + (string \<times> string) list" where
  "load_cv_data listing reading markdown =
     (case listing of
        Inl e \<Rightarrow> Inl e
      | Inr names \<Rightarrow>
          read_cv_files reading markdown [] (filter (\<lambda>f. endswith f ''.md'') names))"

definition get_cv ::
  "exn + string list \<Rightarrow> (string \<Rightarrow> exn + string) \<Rightarrow> (string \<Rightarrow> string) \<Rightarrow> exn + response" where
  "get_cv listing reading markdown =
     (case load_cv_data listing reading markdown of
        Inl e \<Rightarrow> Inl e
      | Inr cv_data \<Rightarrow> Inr (Response 200 (Obj (map (\<lambda>kv. (fst kv, Ser (PStr (snd kv)))) cv_data))))"

section \<open>Reading a loaded document\<close>

text \<open>
  The vocabulary of the statements below, in terms of the operations the handlers apply:
  the slug of a category is defined when \<^verbatim>\<open>category['category']\<close> is a string, its
  project list when \<^verbatim>\<open>category.get('projects', [])\<close> is a list, and the categories of a
  document when \<^verbatim>\<open>projects_data.get('projects', [])\<close> is a list. A category with a slug
  and a project list is well formed.
\<close>

definition category_slug :: "heap \<Rightarrow> pyval \<Rightarrow> string option" where
  "category_slug h c =
     (case getitem h c ''category'' of Inr (PStr s) \<Rightarrow> Some (slugify s) | _ \<Rightarrow> None)"

definition category_projects :: "heap \<Rightarrow> pyval \<Rightarrow> pyval list option" where
  "category_projects h c =
     (case dict_get h c ''projects'' (PList []) of Inr (PList ps) \<Rightarrow> Some ps | _ \<Rightarrow> None)"

definition listed_categories :: "heap \<Rightarrow> pyval \<Rightarrow> pyval list option" where
  "listed_categories h root =
     (case dict_get h root ''projects'' (PList []) of Inr (PList cs) \<Rightarrow> Some cs | _ \<Rightarrow> None)"

definition well_formed_category :: "heap \<Rightarrow> pyval \<Rightarrow> bool" where
  "well_formed_category h c = (category_slug h c \<noteq> None \<and> category_projects h c \<noteq> None)"

section \<open>Example documents\<close>

text \<open>
  The projects file of the end-to-end scenario: one category
  \<^verbatim>\<open>AI & Technology Innovation\<close> with two projects. Address 0 is the top dictionary.
\<close>

definition ai_store :: heap where
  "ai_store =
     [[(''projects'', PList [PDict 1])],
      [(''category'', PStr ''AI & Technology Innovation''),
       (''projects'', PList [PDict 2, PDict 3])],
      [(''title'', PStr ''Assistant'')],
      [(''title'', PStr ''Pipeline'')]]"

definition ai_doc :: source where
  "ai_doc = Parsed ai_store (PDict 0)"

text \<open>
  A file with two categories; the second has a slug without a hyphen, and its second
  project brings its own capabilities.
\<close>

definition example_store :: heap where
  "example_store =
     [[(''projects'', PList [PDict 1, PDict 2])],
      [(''category'', PStr ''AI & Technology Innovation''),
       (''projects'', PList [PDict 3, PDict 4])],
      [(''category'', PStr ''Research''), (''projects'', PList [PDict 5, PDict 6])],
      [(''title'', PStr ''Assistant'')],
      [(''title'', PStr ''Pipeline'')],
      [(''title'', PStr ''Alpha'')],
      [(''title'', PStr ''Beta''), (''capabilities'', PList [PStr ''Field work''])]]"

definition example_doc :: source where
  "example_doc = Parsed example_store (PDict 0)"





text \<open>
  A file system whose every read fails, one where only \<^verbatim>\<open>cv.md\<close> can be read, and a
  renderer that returns its input.
\<close>

definition cv_reading :: "string \<Rightarrow> exn + string" where
  "cv_reading file = (if file = ''cv.md'' then Inr ''Hello'' else Inl OSError)"


definition unreadable_file :: "string \<Rightarrow> exn + string" where
  "unreadable_file file = Inl OSError"

definition plain_markdown :: "string \<Rightarrow> string" where
  "plain_markdown content = content"

section \<open>Properties of the slug\<close>

lemma lower_char_idem: "lower_char (lower_char c) = lower_char c"
proof -
  have "(of_char c :: nat) < 256" by simp
  then show ?thesis
    by (auto simp: lower_char_def Let_def)
qed

lemma lower_char_hyphen: "lower_char (CHR ''-'') = CHR ''-''"
  by (simp add: lower_char_def)

lemma set_str_replace: "set (str_replace old new s) \<subseteq> set s \<union> set new"
proof (induction old new s rule: str_replace.induct)
  case (1 old new)
  then show ?case by auto
next
  case (2 old new c cs)
  have "set (drop (length old) (c # cs)) \<subseteq> set (c # cs)"
    by (rule set_drop_subset)
  with 2 show ?case by (auto simp del: drop_Suc_Cons)
qed

lemma str_replace_absent:
  "old \<noteq> [] \<Longrightarrow> hd old \<notin> set s \<Longrightarrow> str_replace old new s = s"
proof (induction s)
  case Nil
  then show ?case by simp
next
  case (Cons c cs)
  from Cons.prems have "take (length old) (c # cs) \<noteq> old"
    by (cases old) auto
  with Cons show ?case by simp
qed

lemma space_not_in_replace:
  "CHR '' '' \<notin> set new \<Longrightarrow> CHR '' '' \<notin> set (str_replace '' '' new s)"
  by (induction s) auto

lemma slugify_chars:
  assumes "c \<in> set (slugify x)"
  shows "lower_char c = c \<and> c \<noteq> CHR '' ''"
proof -
  have ns: "c \<noteq> CHR '' ''"
    using assms space_not_in_replace [of "''-''"] by (auto simp: slugify_def)
  have "set (slugify x) \<subseteq> set (str_lower x) \<union> {CHR ''-''}"
    unfolding slugify_def
    using set_str_replace [of "'' ''" "''-''" "str_replace '' & '' ''-'' (str_lower x)"]
      set_str_replace [of "'' & ''" "''-''" "str_lower x"]
    by auto
  with assms have "c \<in> lower_char ` set x \<or> c = CHR ''-''"
    by (auto simp: str_lower_def)
  then have "lower_char c = c"
    by (auto simp: lower_char_idem lower_char_hyphen)
  with ns show ?thesis by simp
qed

text \<open>
  C4. The slug of a slug is the slug itself: a slug holds no space and no capital, so
  lowering it and both replacements leave it as it is.
\<close>

theorem slugify_idempotent: "slugify (slugify x) = slugify x"
proof -
  let ?y = "slugify x"
  have low: "str_lower ?y = ?y"
    unfolding str_lower_def by (rule map_idI) (simp add: slugify_chars)
  have nosp: "CHR '' '' \<notin> set ?y"
    using slugify_chars by blast
  have "slugify ?y = str_replace '' '' ''-'' (str_replace '' & '' ''-'' ?y)"
    by (simp add: slugify_def [of ?y] low)
  also have "\<dots> = ?y"
    using nosp by (simp add: str_replace_absent)
  finally show ?thesis .
qed

text \<open>
  C9. The label \<^verbatim>\<open>AI & Technology Innovation\<close> has the slug
  \<^verbatim>\<open>ai-technology-innovation\<close>.
\<close>

theorem slugify_ai_technology_innovation:
  "slugify ''AI & Technology Innovation'' = ''ai-technology-innovation''"
  by code_simp

section \<open>Facts about the encoder\<close>

lemma jsonify_error_body [simp]:
  "jsonify h code (error_body msg) = Inr (Response code (error_body msg), h)"
  by (simp add: jsonify_def error_body_def)

lemma json_error_leaf: "leaf v \<Longrightarrow> json_error h markers v = None"
  by (cases v) (simp_all add: leaf_def)

lemma map_eq_list_all2: "list_all2 (\<lambda>x y. f x = g y) xs ys \<Longrightarrow> map f xs = map g ys"
  by (induction rule: list_all2_induct) simp_all

text \<open>The encoder ends alike on stores that are alike.\<close>

lemma json_error_alike:
  "alike h h' \<Longrightarrow> json_error h markers v = json_error h' markers v"
proof (induction h markers v rule: json_error.induct)
  case (1 h markers xs)
  have "map (json_error h markers) xs = map (json_error h' markers) xs"
  proof (rule map_cong [OF refl])
    fix x assume "x \<in> set xs"
    with 1 show "json_error h markers x = json_error h' markers x" by blast
  qed
  then show ?case by (simp only: json_error.simps)
next
  case (2 h markers a)
  show ?case
  proof (cases "a \<in> set markers")
    case True
    then show ?thesis by simp
  next
    case new: False
    show ?thesis
    proof (cases "a < length h")
      case False
      with "2.prems" new show ?thesis by (simp add: deref_def alike_def)
    next
      case True
      with "2.prems" have a': "a < length h'" and rel: "list_all2 alike_item (h ! a) (h' ! a)"
        by (simp_all add: alike_def)
      from True have cell: "deref h a = Some (h ! a)" by (simp add: deref_def)
      have "list_all2 (\<lambda>kv kv'. json_error h (a # markers) (snd kv) =
                               json_error h' (a # markers) (snd kv')) (h ! a) (h' ! a)"
      proof (rule list_all2_all_nthI)
        show "length (h ! a) = length (h' ! a)"
          using rel by (rule list_all2_lengthD)
      next
        fix i assume i: "i < length (h ! a)"
        with rel have item: "alike_item (h ! a ! i) (h' ! a ! i)"
          by (simp add: list_all2_nthD)
        from i have "h ! a ! i \<in> set (h ! a)" by simp
        from "2.IH" [OF new cell this "2.prems"] item
        show "json_error h (a # markers) (snd (h ! a ! i)) =
              json_error h' (a # markers) (snd (h' ! a ! i))"
          by (auto simp: alike_item_def json_error_leaf)
      qed
      then have "map (\<lambda>kv. json_error h (a # markers) (snd kv)) (h ! a) =
                 map (\<lambda>kv. json_error h' (a # markers) (snd kv)) (h' ! a)"
        by (rule map_eq_list_all2)
      with new True a' show ?thesis by (simp add: deref_def)
    qed
  qed
qed simp_all

lemma alike_item_refl: "list_all2 alike_item d d"
  by (simp add: list_all2_refl alike_item_def)

lemma update_alike:
  "map_of d k = Some v \<Longrightarrow> leaf v \<Longrightarrow> leaf v' \<Longrightarrow> list_all2 alike_item d (AList.update k v' d)"
proof (induction d)
  case Nil
  then show ?case by simp
next
  case (Cons p d)
  have "list_all2 (\<lambda>a b. fst a = fst b \<and> (snd a = snd b \<or> leaf (snd a) \<and> leaf (snd b))) d d"
    by (simp add: list_all2_refl)
  with Cons show ?case
    by (cases p) (auto simp: alike_item_def)
qed

lemma store_item_alike:
  assumes "a < length h" and "map_of (h ! a) k = Some v" and "leaf v" and "leaf v'"
  shows "alike h (store_item h a k v')"
  using assms
  by (auto simp: alike_def store_item_def nth_list_update alike_item_refl update_alike)

section \<open>The industry relevance table\<close>

text \<open>
  C5. \<^verbatim>\<open>get_industry_project_relevance\<close> never raises: it answers every identifier
  with status 200; for a key of the table the body is that key's entry, for every other
  identifier it is the entry of \<^verbatim>\<open>custom\<close>. The table has the six keys listed, and
  \<^verbatim>\<open>unknown-industry\<close> is answered as \<^verbatim>\<open>custom\<close> is.
\<close>

theorem relevance_never_fails:
  "get_industry_project_relevance industry_id =
     Inr (Response 200
       (case map_of relevance_map industry_id of
          Some entry \<Rightarrow> entry
        | None \<Rightarrow>
            relevance_entry
              [''ai-technology-innovation-0'', ''strategic-vision-systems-thinking-0'',
               ''business-transformation-innovation-0'', ''creative-conceptual-development-0'']
              [''strategic-vision-systems-thinking-0'', ''ai-technology-innovation-0'']))
   \<and> (map_of relevance_map industry_id = None) =
       (industry_id \<notin> set [''financial-services'', ''tech-consulting'', ''ai-implementation'',
                           ''digital-transformation'', ''startup-innovation'', ''custom''])
   \<and> get_industry_project_relevance ''unknown-industry'' =
       get_industry_project_relevance ''custom''"
proof -
  have custom: "map_of relevance_map ''custom'' =
      Some (relevance_entry
              [''ai-technology-innovation-0'', ''strategic-vision-systems-thinking-0'',
               ''business-transformation-innovation-0'', ''creative-conceptual-development-0'']
              [''strategic-vision-systems-thinking-0'', ''ai-technology-innovation-0''])"
    by (simp add: relevance_map_def)
  have unknown: "map_of relevance_map ''unknown-industry'' = None"
    by (simp add: relevance_map_def)
  have keys: "(map_of relevance_map industry_id = None) =
       (industry_id \<notin> set [''financial-services'', ''tech-consulting'', ''ai-implementation'',
                           ''digital-transformation'', ''startup-innovation'', ''custom''])"
    by (simp add: relevance_map_def)
  have main: "get_industry_project_relevance industry_id =
     Inr (Response 200
       (case map_of relevance_map industry_id of
          Some entry \<Rightarrow> entry
        | None \<Rightarrow>
            relevance_entry
              [''ai-technology-innovation-0'', ''strategic-vision-systems-thinking-0'',
               ''business-transformation-innovation-0'', ''creative-conceptual-development-0'']
              [''strategic-vision-systems-thinking-0'', ''ai-technology-innovation-0'']))"
    by (cases "map_of relevance_map industry_id")
       (simp_all add: get_industry_project_relevance_def relevance_at_def custom)
  have same: "get_industry_project_relevance ''unknown-industry'' =
       get_industry_project_relevance ''custom''"
    by (simp add: get_industry_project_relevance_def relevance_at_def custom unknown)
  from main keys same show ?thesis by blast
qed

section \<open>The CV directory\<close>

lemma read_cv_files_fail:
  "f \<in> set files \<Longrightarrow> reading f = Inl e \<Longrightarrow>
     \<exists>e' g. g \<in> set files \<and> reading g = Inl e'
       \<and> read_cv_files reading markdown cv_data files = Inl e'"
proof (induction files arbitrary: cv_data)
  case Nil
  then show ?case by simp
next
  case (Cons x files)
  show ?case
  proof (cases "reading x")
    case (Inl e0)
    then have "read_cv_files reading markdown cv_data (x # files) = Inl e0" by simp
    with Inl show ?thesis by auto
  next
    case (Inr content)
    with Cons.prems have "f \<in> set files" by auto
    from Cons.IH [OF this Cons.prems(2), of "AList.update x (markdown content) cv_data"]
    obtain e' g where "g \<in> set files" "reading g = Inl e'"
      "read_cv_files reading markdown (AList.update x (markdown content) cv_data) files = Inl e'"
      by blast
    with Inr show ?thesis by auto
  qed
qed

lemma read_cv_files_ok:
  "\<forall>f \<in> set files. \<exists>content. reading f = Inr content \<Longrightarrow>
     \<exists>result. read_cv_files reading markdown cv_data files = Inr result
       \<and> (\<forall>f. map_of result f =
             (if f \<in> set files
              then (case reading f of Inr content \<Rightarrow> Some (markdown content) | Inl e \<Rightarrow> None)
              else map_of cv_data f))"
proof (induction files arbitrary: cv_data)
  case Nil
  then show ?case by simp
next
  case (Cons x files)
  from Cons.prems obtain content where x: "reading x = Inr content" by auto
  from Cons.prems have "\<forall>f \<in> set files. \<exists>content. reading f = Inr content" by simp
  from Cons.IH [OF this, of "AList.update x (markdown content) cv_data"]
  obtain result where
    run: "read_cv_files reading markdown (AList.update x (markdown content) cv_data) files =
            Inr result"
    and look: "\<forall>f. map_of result f =
             (if f \<in> set files
              then (case reading f of Inr content \<Rightarrow> Some (markdown content) | Inl e \<Rightarrow> None)
              else map_of (AList.update x (markdown content) cv_data) f)"
    by blast
  have "read_cv_files reading markdown cv_data (x # files) = Inr result"
    using x run by simp
  moreover have "\<forall>f. map_of result f =
             (if f \<in> set (x # files)
              then (case reading f of Inr content \<Rightarrow> Some (markdown content) | Inl e \<Rightarrow> None)
              else map_of cv_data f)"
    using look x by (auto simp: AList.update_conv')
  ultimately show ?case by blast
qed

text \<open>
  C7, as the code has it. \<^verbatim>\<open>load_cv_data\<close> absorbs no file-system error. When the
  CV directory cannot be listed, the exception leaves \<^verbatim>\<open>load_cv_data\<close> and \<^verbatim>\<open>get_cv\<close>
  uncaught and no mapping is returned; when the listing succeeds and a Markdown file of
  it cannot be read, the exception of such a read leaves them likewise. When the listing
  and the read of every Markdown file succeed, the result is the mapping that takes
  exactly the listed \<^verbatim>\<open>.md\<close> names, each to its rendered content, and \<^verbatim>\<open>get_cv\<close> answers
  200 with it.
\<close>

theorem cv_errors_propagate:
  "(listing = Inl e \<longrightarrow>
      load_cv_data listing reading markdown = Inl e \<and> get_cv listing reading markdown = Inl e)
   \<and> (listing = Inr names \<and> f \<in> set names \<and> endswith f ''.md'' \<and> reading f = Inl e \<longrightarrow>
        (\<exists>e' g. g \<in> set names \<and> endswith g ''.md'' \<and> reading g = Inl e'
           \<and> load_cv_data listing reading markdown = Inl e'
           \<and> get_cv listing reading markdown = Inl e'))
   \<and> (listing = Inr names
        \<and> (\<forall>g \<in> set names. endswith g ''.md'' \<longrightarrow> (\<exists>content. reading g = Inr content)) \<longrightarrow>
        (\<exists>cv_data. load_cv_data listing reading markdown = Inr cv_data
           \<and> get_cv listing reading markdown =
               Inr (Response 200 (Obj (map (\<lambda>kv. (fst kv, Ser (PStr (snd kv)))) cv_data)))
           \<and> (\<forall>g. map_of cv_data g =
                 (if g \<in> set names \<and> endswith g ''.md''
                  then (case reading g of
                          Inr content \<Rightarrow> Some (markdown content)
                        | Inl x \<Rightarrow> None)
                  else None))))"
proof (intro conjI impI)
  assume "listing = Inl e"
  then show "load_cv_data listing reading markdown = Inl e"
    by (simp add: load_cv_data_def)
next
  assume "listing = Inl e"
  then show "get_cv listing reading markdown = Inl e"
    by (simp add: load_cv_data_def get_cv_def)
next
  assume a: "listing = Inr names \<and> f \<in> set names \<and> endswith f ''.md'' \<and> reading f = Inl e"
  then have "f \<in> set (filter (\<lambda>f. endswith f ''.md'') names)" by simp
  from read_cv_files_fail [OF this, of reading e markdown "[]"] a
  obtain e' g where "g \<in> set (filter (\<lambda>f. endswith f ''.md'') names)" "reading g = Inl e'"
    "read_cv_files reading markdown [] (filter (\<lambda>f. endswith f ''.md'') names) = Inl e'"
    by blast
  with a show "\<exists>e' g. g \<in> set names \<and> endswith g ''.md'' \<and> reading g = Inl e'
           \<and> load_cv_data listing reading markdown = Inl e'
           \<and> get_cv listing reading markdown = Inl e'"
    by (auto simp: load_cv_data_def get_cv_def)
next
  assume a: "listing = Inr names
        \<and> (\<forall>g \<in> set names. endswith g ''.md'' \<longrightarrow> (\<exists>content. reading g = Inr content))"
  then have "\<forall>f \<in> set (filter (\<lambda>f. endswith f ''.md'') names). \<exists>content. reading f = Inr content"
    by simp
  from read_cv_files_ok [OF this, of markdown "[]"]
  obtain result where
    "read_cv_files reading markdown [] (filter (\<lambda>f. endswith f ''.md'') names) = Inr result"
    "\<forall>g. map_of result g =
             (if g \<in> set (filter (\<lambda>f. endswith f ''.md'') names)
              then (case reading g of Inr content \<Rightarrow> Some (markdown content) | Inl e \<Rightarrow> None)
              else map_of [] g)"
    by blast
  with a show "\<exists>cv_data. load_cv_data listing reading markdown = Inr cv_data
           \<and> get_cv listing reading markdown =
               Inr (Response 200 (Obj (map (\<lambda>kv. (fst kv, Ser (PStr (snd kv)))) cv_data)))
           \<and> (\<forall>g. map_of cv_data g =
                 (if g \<in> set names \<and> endswith g ''.md''
                  then (case reading g of
                          Inr content \<Rightarrow> Some (markdown content)
                        | Inl x \<Rightarrow> None)
                  else None))"
    by (auto simp: load_cv_data_def get_cv_def)
qed

text \<open>
  A directory that cannot be listed; a listing with a Markdown file that cannot be read;
  and a listing whose one Markdown file is read and rendered.
\<close>

theorem cv_errors_propagate_witness:
  "load_cv_data (Inl OSError) cv_reading plain_markdown = Inl OSError
   \<and> get_cv (Inl OSError) cv_reading plain_markdown = Inl OSError
   \<and> endswith ''broken.md'' ''.md'' \<and> cv_reading ''broken.md'' = Inl OSError
   \<and> load_cv_data (Inr [''cv.md'', ''broken.md'']) cv_reading plain_markdown = Inl OSError
   \<and> get_cv (Inr [''cv.md'', ''broken.md'']) cv_reading plain_markdown = Inl OSError
   \<and> endswith ''cv.md'' ''.md'' \<and> \<not> endswith ''notes.txt'' ''.md''
   \<and> cv_reading ''cv.md'' = Inr ''Hello''
   \<and> load_cv_data (Inr [''cv.md'', ''notes.txt'']) cv_reading plain_markdown =
       Inr [(''cv.md'', ''Hello'')]
   \<and> get_cv (Inr [''cv.md'', ''notes.txt'']) cv_reading plain_markdown =
       Inr (Response 200 (Obj [(''cv.md'', Ser (PStr ''Hello''))]))"
proof -
  have ends: "endswith ''broken.md'' ''.md''" "endswith ''cv.md'' ''.md''"
    "\<not> endswith ''notes.txt'' ''.md''"
    by (simp_all add: endswith_def)
  have reads: "cv_reading ''broken.md'' = Inl OSError" "cv_reading ''cv.md'' = Inr ''Hello''"
    by (simp_all add: cv_reading_def)
  have r0: "load_cv_data (Inl OSError) cv_reading plain_markdown = Inl OSError
      \<and> get_cv (Inl OSError) cv_reading plain_markdown = Inl OSError"
    using cv_errors_propagate [of "Inl OSError" OSError cv_reading plain_markdown] by simp
  have r1: "load_cv_data (Inr [''cv.md'', ''broken.md'']) cv_reading plain_markdown = Inl OSError
      \<and> get_cv (Inr [''cv.md'', ''broken.md'']) cv_reading plain_markdown = Inl OSError"
  proof -
    from cv_errors_propagate [of "Inr [''cv.md'', ''broken.md'']" OSError cv_reading
        plain_markdown "[''cv.md'', ''broken.md'']" "''broken.md''"] ends reads
    obtain e' g where "cv_reading g = Inl e'"
      "load_cv_data (Inr [''cv.md'', ''broken.md'']) cv_reading plain_markdown = Inl e'"
      "get_cv (Inr [''cv.md'', ''broken.md'']) cv_reading plain_markdown = Inl e'"
      by auto
    moreover from this(1) have "e' = OSError"
      by (simp add: cv_reading_def split: if_splits)
    ultimately show ?thesis by simp
  qed
  have r2: "load_cv_data (Inr [''cv.md'', ''notes.txt'']) cv_reading plain_markdown =
       Inr [(''cv.md'', ''Hello'')]
      \<and> get_cv (Inr [''cv.md'', ''notes.txt'']) cv_reading plain_markdown =
       Inr (Response 200 (Obj [(''cv.md'', Ser (PStr ''Hello''))]))"
  proof -
    have run: "load_cv_data (Inr [''cv.md'', ''notes.txt'']) cv_reading plain_markdown =
       Inr [(''cv.md'', ''Hello'')]"
      by (simp add: load_cv_data_def ends reads plain_markdown_def)
    from cv_errors_propagate [of "Inr [''cv.md'', ''notes.txt'']" OSError cv_reading
        plain_markdown "[''cv.md'', ''notes.txt'']" "''cv.md''"] ends reads run
    show ?thesis by auto
  qed
  from ends reads r0 r1 r2 show ?thesis by simp
qed

text \<open>
  The claim as stated fails: with a directory that cannot be listed, the result is the
  exception and not the empty mapping; and a file that cannot be read ends the request
  in the same way.
\<close>

theorem cv_listing_error_counterexample:
  "load_cv_data (Inl OSError) unreadable_file plain_markdown = Inl OSError
   \<and> load_cv_data (Inl OSError) unreadable_file plain_markdown \<noteq> Inr []
   \<and> get_cv (Inl OSError) unreadable_file plain_markdown = Inl OSError
   \<and> get_cv (Inr [''cv.md'']) unreadable_file plain_markdown = Inl OSError"
  by (simp add: load_cv_data_def get_cv_def endswith_def unreadable_file_def)

section \<open>A projects file that cannot be read\<close>

text \<open>
  C10, as the code has it. With a missing or unparsable projects file no exception
  leaves the three handlers: \<^verbatim>\<open>get_projects\<close> answers 200 with no category,
  \<^verbatim>\<open>get_projects_by_category\<close> answers 404 for every identifier, and \<^verbatim>\<open>get_project\<close>
  answers 400 for an identifier that fails the parse (fewer than two parts, or a second
  part that is no integer) and 404 for every other identifier.
\<close>

theorem unreadable_projects_file:
  "get_projects Unreadable = Inr (Response 200 (Obj [(''categories'', Arr [])]), [[]])
   \<and> get_projects_by_category Unreadable category_id =
       Inr (Response 404 (error_body ''Category not found''), [[]])
   \<and> get_project Unreadable project_id =
       Inr (if length (str_split CHR ''-'' project_id) < 2
              then Response 400 (error_body ''Invalid project ID'')
            else if py_int (str_split CHR ''-'' project_id ! 1) = None
              then Response 400 (error_body ''Invalid project index'')
            else Response 404 (error_body ''Project not found''),
            [[]])"
proof -
  have empty: "jsonify [[]] 200 (Obj [(''categories'', Arr [])]) =
      Inr (Response 200 (Obj [(''categories'', Arr [])]), [[]])"
    by (simp add: jsonify_def)
  show ?thesis
    by (auto simp: get_projects_def get_projects_by_category_def get_project_def
        load_project_data_def load_yaml_data_def dict_get_def deref_def py_iter_def Let_def
        empty)
qed

text \<open>
  The claim as stated fails: \<^verbatim>\<open>get_project\<close> does not answer every identifier with
  404; the identifier \<^verbatim>\<open>cat\<close> is answered with 400.
\<close>

theorem unreadable_projects_file_counterexample:
  "get_project Unreadable ''cat'' = Inr (Response 400 (error_body ''Invalid project ID''), [[]])
   \<and> get_project Unreadable ''cat'' \<noteq>
       Inr (Response 404 (error_body ''Project not found''), [[]])"
  by (simp add: get_project_def load_project_data_def load_yaml_data_def)

section \<open>Facts about the operations\<close>

lemma category_slugD:
  "category_slug h c = Some s \<Longrightarrow>
     \<exists>name. getitem h c ''category'' = Inr (PStr name) \<and> slug_of (PStr name) = Inr s"
  by (auto simp: category_slug_def slug_of_def split: sum.splits pyval.splits)

lemma category_projectsD:
  "category_projects h c = Some ps \<Longrightarrow>
     dict_get h c ''projects'' (PList []) = Inr (PList ps) \<and> py_len h (PList ps) = Inr (length ps)
     \<and> py_iter h (PList ps) = Inr ps"
  by (auto simp: category_projects_def py_len_def py_iter_def split: sum.splits pyval.splits)

lemma listed_categoriesD:
  "listed_categories h root = Some cs \<Longrightarrow>
     dict_get h root ''projects'' (PList []) = Inr (PList cs) \<and> py_iter h (PList cs) = Inr cs"
  by (auto simp: listed_categories_def py_iter_def split: sum.splits pyval.splits)

lemma set_dropWhile_subset: "set (dropWhile P xs) \<subseteq> set xs"
  by (induction xs) auto

lemma set_strip: "set (strip s) \<subseteq> set s"
proof -
  have "set (strip s) \<subseteq> set (rev (dropWhile is_space s))"
    unfolding strip_def using set_dropWhile_subset [of is_space "rev (dropWhile is_space s)"]
    by simp
  also have "\<dots> \<subseteq> set s" using set_dropWhile_subset [of is_space s] by simp
  finally show ?thesis .
qed

text \<open>A part cut out by \<^verbatim>\<open>split('-')\<close> holds no hyphen, so its integer is never negative.\<close>

lemma py_int_nonneg:
  assumes "CHR ''-'' \<notin> set s" and "py_int s = Some i"
  shows "0 \<le> i"
proof -
  from assms(1) set_strip [of s] have "CHR ''-'' \<notin> set (strip s)" by blast
  with assms(2) show ?thesis
    by (auto simp: py_int_def split: list.splits if_splits)
qed

lemma str_split_nonempty: "str_split sep s \<noteq> []"
  by (induction s) (auto split: list.splits)

lemma str_split_no_sep: "p \<in> set (str_split sep s) \<Longrightarrow> sep \<notin> set p"
proof (induction s arbitrary: p)
  case Nil
  then show ?case by simp
next
  case (Cons c cs)
  show ?case
  proof (cases "c = sep")
    case True
    with Cons show ?thesis by auto
  next
    case False
    obtain q qs where q: "str_split sep cs = q # qs"
      using str_split_nonempty [of sep cs] by (cases "str_split sep cs") auto
    with False Cons.prems have "p = c # q \<or> p \<in> set qs" by auto
    with Cons.IH q False show ?thesis by auto
  qed
qed



lemma update_in_place:
  "k \<in> fst ` set al \<Longrightarrow> k \<noteq> k' \<Longrightarrow>
     AList.update k v (AList.update k' v' al) = AList.update k' v' (AList.update k v al)"
  by (induction al) auto

lemma key_after_update: "k \<in> fst ` set (AList.update k v al)"
  by (simp add: AList.dom_update)

lemma load_example: "load_project_data example_doc = (example_store, PDict 0)"
  by (simp add: load_project_data_def load_yaml_data_def example_doc_def)

section \<open>What \<^verbatim>\<open>get_project\<close> stores in the project\<close>

lemma inject_length: "length h \<le> length (inject h a pid)"
  by (simp add: inject_def store_item_def Let_def)

text \<open>Two runs on the same project differ in the id only.\<close>

lemma inject_other_id:
  assumes "a < length h"
  shows "inject h a pid = store_item (inject h a pid') a ''id'' (PStr pid)"
proof -
  have k1: "AList.update ''id'' (PStr pid) (AList.update ''industry_applications'' x
              (AList.update ''id'' (PStr pid') d)) =
            AList.update ''industry_applications'' x (AList.update ''id'' (PStr pid) d)" for x d
    using update_in_place [of "''id''" "AList.update ''id'' (PStr pid') d"
        "''industry_applications''" "PStr pid" x]
    by (simp add: key_after_update)
  have k2: "AList.update ''id'' (PStr pid) (AList.update ''capabilities'' x
              (AList.update ''id'' (PStr pid') d)) =
            AList.update ''capabilities'' x (AList.update ''id'' (PStr pid) d)" for x d
    using update_in_place [of "''id''" "AList.update ''id'' (PStr pid') d"
        "''capabilities''" "PStr pid" x]
    by (simp add: key_after_update)
  have k3: "AList.update ''id'' (PStr pid) (AList.update ''capabilities'' y
              (AList.update ''industry_applications'' x (AList.update ''id'' (PStr pid') d))) =
            AList.update ''capabilities'' y
              (AList.update ''industry_applications'' x (AList.update ''id'' (PStr pid) d))" for x y d
    using update_in_place [of "''id''"
        "AList.update ''industry_applications'' x (AList.update ''id'' (PStr pid') d)"
        "''capabilities''" "PStr pid" y]
    by (simp add: AList.dom_update k1)
  show ?thesis
    using assms
    by (auto simp: inject_def store_item_def has_key_def Let_def nth_append
        list_update_append AList.update_conv' k1 k2 k3)
qed

lemma inject_id:
  assumes "a < length h"
  shows "map_of (inject h a pid ! a) ''id'' = Some (PStr pid)"
  using assms
  by (simp add: inject_def store_item_def has_key_def Let_def nth_append AList.update_conv')

lemma inject_capabilities:
  assumes "a < length h"
  shows "map_of (inject h a pid ! a) ''capabilities'' =
     (case map_of (h ! a) ''capabilities'' of
        None \<Rightarrow> Some default_capabilities
      | Some v \<Rightarrow> Some v)"
  using assms
  by (auto simp: inject_def store_item_def has_key_def Let_def nth_append AList.update_conv'
      split: option.splits)

text \<open>The encoder does not see which identifier was stored as the id.\<close>

lemma json_error_inject:
  assumes "a < length h"
  shows "json_error (inject h a pid) markers v = json_error (inject h a pid') markers v"
proof -
  have len: "a < length (inject h a pid')"
    using assms inject_length [of h a pid'] by simp
  have "alike (inject h a pid') (store_item (inject h a pid') a ''id'' (PStr pid))"
    using len inject_id [OF assms, of pid']
    by (rule store_item_alike) (simp_all add: leaf_def)
  then have "alike (inject h a pid') (inject h a pid)"
    using inject_other_id [OF assms, of pid pid'] by simp
  then show ?thesis by (simp add: json_error_alike)
qed

section \<open>The outcomes of \<^verbatim>\<open>get_project\<close>\<close>

lemma return_project_shape:
  "(\<exists>e. \<forall>pid. return_project h p pid = Inl e)
   \<or> (\<exists>a. a < length h \<and>
         (\<forall>pid. return_project h p pid = Inr (Response 200 (Ser (PDict a)), inject h a pid)))"
proof (cases p)
  case (PDict a)
  show ?thesis
  proof (cases "a < length h")
    case False
    with PDict show ?thesis by (simp add: return_project_def deref_def)
  next
    case True
    have run: "return_project h p pid =
        (case json_error (inject h a []) [] (PDict a) of
           Some e \<Rightarrow> Inl e
         | None \<Rightarrow> Inr (Response 200 (Ser (PDict a)), inject h a pid))" for pid
      using PDict True json_error_inject [OF True, of pid "[]" "PDict a" "[]"]
      by (simp add: return_project_def deref_def jsonify_def del: json_error.simps)
    show ?thesis
    proof (cases "json_error (inject h a []) [] (PDict a)")
      case None
      with run True show ?thesis by auto
    next
      case (Some e)
      with run show ?thesis by auto
    qed
  qed
qed (simp_all add: return_project_def)

text \<open>
  The scan ends in one of three ways, and which one does not depend on the identifier
  that is stored as the id: an exception, the 404 response, or a project of the store.
\<close>

lemma find_project_shape:
  "(\<exists>e. \<forall>pid. find_project h cid i pid cs = Inl e)
   \<or> (\<forall>pid. find_project h cid i pid cs =
         Inr (Response 404 (error_body ''Project not found''), h))
   \<or> (\<exists>a. a < length h \<and>
         (\<forall>pid. find_project h cid i pid cs =
            Inr (Response 200 (Ser (PDict a)), inject h a pid)))"
proof (induction cs)
  case Nil
  then show ?case by simp
next
  case (Cons c cs)
  show ?case
  proof (cases "getitem h c ''category''")
    case (Inl e)
    then show ?thesis by simp
  next
    case name: (Inr name)
    show ?thesis
    proof (cases "slug_of name")
      case (Inl e)
      with name show ?thesis by simp
    next
      case slug: (Inr s)
      show ?thesis
      proof (cases "s = cid")
        case False
        with name slug Cons show ?thesis by simp
      next
        case True
        show ?thesis
        proof (cases "dict_get h c ''projects'' (PList [])")
          case (Inl e)
          with name slug True show ?thesis by simp
        next
          case ps: (Inr ps)
          show ?thesis
          proof (cases "0 \<le> i")
            case False
            then have "find_project h cid i pid (c # cs) = find_project h cid i pid cs" for pid
              using name slug True ps by simp
            with Cons show ?thesis by simp
          next
            case pos: True
            show ?thesis
            proof (cases "py_len h ps")
              case (Inl e)
              with name slug True ps pos show ?thesis by simp
            next
              case n: (Inr n)
              show ?thesis
              proof (cases "i < int n")
                case False
                then have "find_project h cid i pid (c # cs) = find_project h cid i pid cs" for pid
                  using name slug True ps pos n by simp
                with Cons show ?thesis by simp
              next
                case inr: True
                show ?thesis
                proof (cases "getitem_int h ps (nat i)")
                  case (Inl e)
                  with name slug True ps pos n inr show ?thesis by simp
                next
                  case (Inr p)
                  then have "find_project h cid i pid (c # cs) = return_project h p pid" for pid
                    using name slug True ps pos n inr by simp
                  with return_project_shape [of h p] show ?thesis by auto
                qed
              qed
            qed
          qed
        qed
      qed
    qed
  qed
qed

lemma find_project_not_found:
  assumes "\<forall>c \<in> set cs. well_formed_category h c"
    and "\<forall>c \<in> set cs. \<forall>ps. category_slug h c = Some cid \<longrightarrow> category_projects h c = Some ps
           \<longrightarrow> \<not> (0 \<le> i \<and> i < int (length ps))"
  shows "find_project h cid i pid cs = Inr (Response 404 (error_body ''Project not found''), h)"
  using assms
proof (induction cs)
  case Nil
  then show ?case by simp
next
  case (Cons c cs)
  from Cons.prems(1) obtain s ps where s: "category_slug h c = Some s"
    and ps: "category_projects h c = Some ps"
    by (auto simp: well_formed_category_def)
  from category_slugD [OF s] obtain name where
    name: "getitem h c ''category'' = Inr (PStr name)" "slug_of (PStr name) = Inr s"
    by blast
  note pd = category_projectsD [OF ps]
  have rest: "find_project h cid i pid cs = Inr (Response 404 (error_body ''Project not found''), h)"
    using Cons by simp
  show ?case
  proof (cases "s = cid")
    case True
    with Cons.prems(2) s ps have "\<not> (0 \<le> i \<and> i < int (length ps))" by simp
    with True name pd rest show ?thesis by auto
  next
    case False
    with name rest show ?thesis by simp
  qed
qed

lemma get_project_parts:
  assumes "load_project_data src = (h, root)" and "str_split CHR ''-'' pid = c # n # rest"
  shows "get_project src pid =
     (case py_int n of
        None \<Rightarrow> Inr (Response 400 (error_body ''Invalid project index''), h)
      | Some i \<Rightarrow>
     (case dict_get h root ''projects'' (PList []) of
        Inl e \<Rightarrow> Inl e
      | Inr listed \<Rightarrow>
     (case py_iter h listed of
        Inl e \<Rightarrow> Inl e
      | Inr cats \<Rightarrow> find_project h c i pid cats)))"
  using assms by (simp add: get_project_def split: option.splits sum.splits)

lemma get_project_joint:
  assumes "load_project_data src = (h, root)"
    and "str_split CHR ''-'' pid = c # n # rest"
    and "str_split CHR ''-'' pid' = c # n # rest'"
  shows "(\<exists>e. get_project src pid = Inl e \<and> get_project src pid' = Inl e)
   \<or> (\<exists>r. status r \<noteq> 200 \<and> get_project src pid = Inr (r, h) \<and> get_project src pid' = Inr (r, h))
   \<or> (\<exists>a. a < length h
          \<and> get_project src pid = Inr (Response 200 (Ser (PDict a)), inject h a pid)
          \<and> get_project src pid' = Inr (Response 200 (Ser (PDict a)), inject h a pid'))"
proof (cases "py_int n")
  case None
  with get_project_parts [OF assms(1,2)] get_project_parts [OF assms(1,3)]
  have "get_project src pid = Inr (Response 400 (error_body ''Invalid project index''), h)"
    "get_project src pid' = Inr (Response 400 (error_body ''Invalid project index''), h)"
    by simp_all
  then show ?thesis by simp
next
  case i: (Some i)
  show ?thesis
  proof (cases "dict_get h root ''projects'' (PList [])")
    case (Inl e)
    with i get_project_parts [OF assms(1,2)] get_project_parts [OF assms(1,3)]
    show ?thesis by simp
  next
    case listed: (Inr listed)
    show ?thesis
    proof (cases "py_iter h listed")
      case (Inl e)
      with i listed get_project_parts [OF assms(1,2)] get_project_parts [OF assms(1,3)]
      show ?thesis by simp
    next
      case (Inr cats)
      with i listed get_project_parts [OF assms(1,2)] get_project_parts [OF assms(1,3)]
      have eq: "get_project src pid = find_project h c i pid cats"
        "get_project src pid' = find_project h c i pid' cats"
        by simp_all
      from find_project_shape [of h c i cats] show ?thesis
      proof (elim disjE exE conjE)
        fix e assume "\<forall>p. find_project h c i p cats = Inl e"
        with eq show ?thesis by simp
      next
        assume "\<forall>p. find_project h c i p cats =
            Inr (Response 404 (error_body ''Project not found''), h)"
        with eq have "get_project src pid = Inr (Response 404 (error_body ''Project not found''), h)"
          "get_project src pid' = Inr (Response 404 (error_body ''Project not found''), h)"
          by simp_all
        then show ?thesis by simp
      next
        fix a assume "a < length h"
          "\<forall>p. find_project h c i p cats = Inr (Response 200 (Ser (PDict a)), inject h a p)"
        with eq show ?thesis by simp
      qed
    qed
  qed
qed

section \<open>Identifiers with a hyphen in the slug\<close>

text \<open>
  \<^verbatim>\<open>get_project\<close> cuts the identifier at every hyphen. The slug of
  \<^verbatim>\<open>AI & Technology Innovation\<close> has hyphens of its own, so the identifier that
  \<^verbatim>\<open>get_projects_by_category\<close> gives its second project is cut into four parts, and the
  second part is no integer.
\<close>

lemma split_ai_id:
  "str_split CHR ''-'' ''ai-technology-innovation-1'' =
     [''ai'', ''technology'', ''innovation'', ''1'']"
  by simp

lemma py_int_technology: "py_int ''technology'' = None"
  by code_simp

lemma get_project_hyphenated_slug:
  "get_project src ''ai-technology-innovation-1'' =
     Inr (Response 400 (error_body ''Invalid project index''), fst (load_project_data src))"
  by (simp add: get_project_def split_ai_id py_int_technology split: prod.splits)

text \<open>
  C1. On the projects file with the one category \<^verbatim>\<open>AI & Technology Innovation\<close> and
  its two projects, \<^verbatim>\<open>get_projects\<close> returns the one entry with id
  \<^verbatim>\<open>ai-technology-innovation\<close>, that name and \<open>projectCount\<close> 2, as the claim says. The
  request for \<^verbatim>\<open>ai-technology-innovation-1\<close> does not return the second project: it is
  answered with 400, \<^verbatim>\<open>Invalid project index\<close>.
\<close>

theorem end_to_end_hyphenated_slug:
  "get_projects ai_doc =
     Inr (Response 200
            (Obj [(''categories'',
                   Arr [Obj [(''id'', Ser (PStr ''ai-technology-innovation'')),
                             (''name'', Ser (PStr ''AI & Technology Innovation'')),
                             (''projectCount'', Ser (PInt 2))]])]),
          ai_store)
   \<and> get_project ai_doc ''ai-technology-innovation-1'' =
       Inr (Response 400 (error_body ''Invalid project index''), ai_store)"
proof -
  have "get_projects ai_doc =
     Inr (Response 200
            (Obj [(''categories'',
                   Arr [Obj [(''id'', Ser (PStr ''ai-technology-innovation'')),
                             (''name'', Ser (PStr ''AI & Technology Innovation'')),
                             (''projectCount'', Ser (PInt 2))]])]),
          ai_store)"
    by code_simp
  moreover have "fst (load_project_data ai_doc) = ai_store"
    by (simp add: load_project_data_def load_yaml_data_def ai_doc_def)
  ultimately show ?thesis
    by (simp add: get_project_hyphenated_slug)
qed

section \<open>The error responses of \<^verbatim>\<open>get_project\<close>\<close>

text \<open>
  C2, as the code has it. With \<open>h\<close> and \<open>root\<close> the loaded store and document:
  an identifier with fewer than two parts is answered 400 with the body
  \<^verbatim>\<open>{"error": "Invalid project ID"}\<close> (the code writes \<^verbatim>\<open>ID\<close> in capitals); otherwise,
  a second part that does not parse as a non-negative integer is answered 400 with
  \<^verbatim>\<open>{"error": "Invalid project index"}\<close>; otherwise, on a document whose categories are
  well formed, the answer is 404 with \<^verbatim>\<open>{"error": "Project not found"}\<close> when no category
  whose slug is the first part has the index within its project list. The first two
  answers hold for every document, also an ill-formed one.
\<close>

theorem get_project_errors:
  assumes "load_project_data src = (h, root)"
  shows "(length (str_split CHR ''-'' pid) < 2 \<longrightarrow>
            get_project src pid = Inr (Response 400 (error_body ''Invalid project ID''), h))
       \<and> (2 \<le> length (str_split CHR ''-'' pid) \<and>
            \<not> (\<exists>i. 0 \<le> i \<and> py_int (str_split CHR ''-'' pid ! 1) = Some i) \<longrightarrow>
            get_project src pid = Inr (Response 400 (error_body ''Invalid project index''), h))
       \<and> (2 \<le> length (str_split CHR ''-'' pid) \<and>
            py_int (str_split CHR ''-'' pid ! 1) = Some i \<and>
            listed_categories h root = Some cs \<and>
            (\<forall>c \<in> set cs. well_formed_category h c) \<and>
            (\<forall>c \<in> set cs. \<forall>ps. category_slug h c = Some (str_split CHR ''-'' pid ! 0) \<longrightarrow>
                category_projects h c = Some ps \<longrightarrow> \<not> (0 \<le> i \<and> i < int (length ps))) \<longrightarrow>
            get_project src pid = Inr (Response 404 (error_body ''Project not found''), h))"
proof (intro conjI impI)
  assume "length (str_split CHR ''-'' pid) < 2"
  with assms show "get_project src pid = Inr (Response 400 (error_body ''Invalid project ID''), h)"
    by (simp add: get_project_def)
next
  assume a: "2 \<le> length (str_split CHR ''-'' pid) \<and>
            \<not> (\<exists>i. 0 \<le> i \<and> py_int (str_split CHR ''-'' pid ! 1) = Some i)"
  then have "str_split CHR ''-'' pid ! 1 \<in> set (str_split CHR ''-'' pid)" by simp
  then have "CHR ''-'' \<notin> set (str_split CHR ''-'' pid ! 1)" by (rule str_split_no_sep)
  with a py_int_nonneg have "py_int (str_split CHR ''-'' pid ! 1) = None"
    by (cases "py_int (str_split CHR ''-'' pid ! 1)") auto
  with a assms show "get_project src pid = Inr (Response 400 (error_body ''Invalid project index''), h)"
    by (simp add: get_project_def)
next
  assume a: "2 \<le> length (str_split CHR ''-'' pid) \<and>
            py_int (str_split CHR ''-'' pid ! 1) = Some i \<and>
            listed_categories h root = Some cs \<and>
            (\<forall>c \<in> set cs. well_formed_category h c) \<and>
            (\<forall>c \<in> set cs. \<forall>ps. category_slug h c = Some (str_split CHR ''-'' pid ! 0) \<longrightarrow>
                category_projects h c = Some ps \<longrightarrow> \<not> (0 \<le> i \<and> i < int (length ps)))"
  then have "find_project h (str_split CHR ''-'' pid ! 0) i pid cs =
      Inr (Response 404 (error_body ''Project not found''), h)"
    by (intro find_project_not_found) blast+
  with a assms listed_categoriesD [of h root cs]
  show "get_project src pid = Inr (Response 404 (error_body ''Project not found''), h)"
    by (simp add: get_project_def)
qed

lemma example_categories:
  "listed_categories example_store (PDict 0) = Some [PDict 1, PDict 2]"
  "category_slug example_store (PDict 1) = Some ''ai-technology-innovation''"
  "category_slug example_store (PDict 2) = Some ''research''"
  "category_projects example_store (PDict 1) = Some [PDict 3, PDict 4]"
  "category_projects example_store (PDict 2) = Some [PDict 5, PDict 6]"
  by code_simp+

text \<open>The three answers on the example document.\<close>

theorem get_project_errors_witness:
  "length (str_split CHR ''-'' ''research'') < 2
   \<and> get_project example_doc ''research'' =
       Inr (Response 400 (error_body ''Invalid project ID''), example_store)
   \<and> str_split CHR ''-'' ''research-x'' = [''research'', ''x''] \<and> py_int ''x'' = None
   \<and> get_project example_doc ''research-x'' =
       Inr (Response 400 (error_body ''Invalid project index''), example_store)
   \<and> str_split CHR ''-'' ''research-7'' = [''research'', ''7''] \<and> py_int ''7'' = Some 7
   \<and> listed_categories example_store (PDict 0) = Some [PDict 1, PDict 2]
   \<and> well_formed_category example_store (PDict 1)
   \<and> well_formed_category example_store (PDict 2)
   \<and> category_slug example_store (PDict 2) = Some ''research''
   \<and> category_projects example_store (PDict 2) = Some [PDict 5, PDict 6]
   \<and> get_project example_doc ''research-7'' =
       Inr (Response 404 (error_body ''Project not found''), example_store)"
proof -
  have s0: "length (str_split CHR ''-'' ''research'') < 2" by simp
  have s1: "str_split CHR ''-'' ''research-x'' = [''research'', ''x'']" by simp
  have s2: "str_split CHR ''-'' ''research-7'' = [''research'', ''7'']" by simp
  have i1: "py_int ''x'' = None" by code_simp
  have i2: "py_int ''7'' = Some 7" by code_simp
  have wf: "well_formed_category example_store (PDict 1)"
    "well_formed_category example_store (PDict 2)"
    by code_simp+
  have r0: "get_project example_doc ''research'' =
       Inr (Response 400 (error_body ''Invalid project ID''), example_store)"
    using get_project_errors [OF load_example, of "''research''"] s0 by blast
  have r1: "get_project example_doc ''research-x'' =
       Inr (Response 400 (error_body ''Invalid project index''), example_store)"
    using get_project_errors [OF load_example, of "''research-x''"] s1 i1 by simp
  have r2: "get_project example_doc ''research-7'' =
       Inr (Response 404 (error_body ''Project not found''), example_store)"
    using get_project_errors [OF load_example, of "''research-7''" 7 "[PDict 1, PDict 2]"]
      s2 i2 wf example_categories
    by simp
  from s0 s1 s2 i1 i2 wf example_categories r0 r1 r2 show ?thesis by simp
qed

text \<open>
  The claim as stated fails on the body of the first answer: the identifier
  \<^verbatim>\<open>research\<close> is answered with \<^verbatim>\<open>Invalid project ID\<close>, not \<^verbatim>\<open>Invalid project id\<close>.
  It also fails when its three conditions are read side by side: no category has the
  slug \<^verbatim>\<open>nothing\<close>, and the identifier \<^verbatim>\<open>nothing\<close> is answered with 400, not 404,
  since the parts are counted first.
\<close>

theorem get_project_errors_counterexample:
  "get_project example_doc ''research'' =
     Inr (Response 400 (Obj [(''error'', Ser (PStr ''Invalid project ID''))]), example_store)
   \<and> get_project example_doc ''research'' \<noteq>
     Inr (Response 400 (Obj [(''error'', Ser (PStr ''Invalid project id''))]), example_store)
   \<and> listed_categories example_store (PDict 0) = Some [PDict 1, PDict 2]
   \<and> category_slug example_store (PDict 1) \<noteq> Some ''nothing''
   \<and> category_slug example_store (PDict 2) \<noteq> Some ''nothing''
   \<and> get_project example_doc ''nothing'' =
     Inr (Response 400 (Obj [(''error'', Ser (PStr ''Invalid project ID''))]), example_store)"
  by code_simp

section \<open>Trailing parts of an identifier\<close>



section \<open>The default capabilities\<close>

text \<open>
  C6. When \<^verbatim>\<open>get_project\<close> succeeds, the body is a project \<open>a\<close> of the loaded store.
  If the project had no \<^verbatim>\<open>capabilities\<close> when it was loaded, the returned project has
  exactly the four default strings, in their order; if it had a value, the returned
  project has that value.
\<close>

theorem default_capabilities_injected:
  assumes "load_project_data src = (h, root)"
    and "get_project src pid = Inr (Response 200 b, h')"
  shows "\<exists>a d d'. b = Ser (PDict a) \<and> deref h a = Some d \<and> deref h' a = Some d'
     \<and> map_of d' ''capabilities'' =
         (case map_of d ''capabilities'' of
            None \<Rightarrow>
              Some (PList [PStr ''Strategic vision and planning'',
                           PStr ''Technical implementation expertise'',
                           PStr ''Cross-functional team leadership'',
                           PStr ''Innovation and creative problem-solving''])
          | Some v \<Rightarrow> Some v)"
proof -
  have long: "\<not> length (str_split CHR ''-'' pid) < 2"
    using assms by (auto simp: get_project_def)
  then obtain c n rest where parts: "str_split CHR ''-'' pid = c # n # rest"
    by (cases "str_split CHR ''-'' pid"; cases "tl (str_split CHR ''-'' pid)") auto
  from get_project_joint [OF assms(1) parts parts] assms(2)
  obtain a where a: "a < length h" and b: "b = Ser (PDict a)" and h': "h' = inject h a pid"
    by auto
  have "a < length h'" using a h' inject_length [of h a pid] by simp
  then have d': "deref h' a = Some (h' ! a)" by (simp add: deref_def)
  have d: "deref h a = Some (h ! a)" using a by (simp add: deref_def)
  from inject_capabilities [OF a, of pid] h'
  have "map_of (h' ! a) ''capabilities'' =
         (case map_of (h ! a) ''capabilities'' of
            None \<Rightarrow>
              Some (PList [PStr ''Strategic vision and planning'',
                           PStr ''Technical implementation expertise'',
                           PStr ''Cross-functional team leadership'',
                           PStr ''Innovation and creative problem-solving''])
          | Some v \<Rightarrow> Some v)"
    by (simp add: default_capabilities_def split: option.splits)
  with b d d' show ?thesis by blast
qed

text \<open>Project 5 of the example lacks the field, project 6 brings its own.\<close>

theorem default_capabilities_injected_witness:
  "load_project_data example_doc = (example_store, PDict 0)
   \<and> get_project example_doc ''research-0'' =
       Inr (Response 200 (Ser (PDict 5)), inject example_store 5 ''research-0'')
   \<and> map_of (example_store ! 5) ''capabilities'' = None
   \<and> map_of (inject example_store 5 ''research-0'' ! 5) ''capabilities'' =
       Some (PList [PStr ''Strategic vision and planning'',
                    PStr ''Technical implementation expertise'',
                    PStr ''Cross-functional team leadership'',
                    PStr ''Innovation and creative problem-solving''])
   \<and> get_project example_doc ''research-1'' =
       Inr (Response 200 (Ser (PDict 6)), inject example_store 6 ''research-1'')
   \<and> map_of (example_store ! 6) ''capabilities'' = Some (PList [PStr ''Field work''])
   \<and> map_of (inject example_store 6 ''research-1'' ! 6) ''capabilities'' =
       Some (PList [PStr ''Field work''])"
proof -
  have g0: "get_project example_doc ''research-0'' =
       Inr (Response 200 (Ser (PDict 5)), inject example_store 5 ''research-0'')"
    by code_simp
  have g1: "get_project example_doc ''research-1'' =
       Inr (Response 200 (Ser (PDict 6)), inject example_store 6 ''research-1'')"
    by code_simp
  have c0: "map_of (example_store ! 5) ''capabilities'' = None"
    by code_simp
  have c1: "map_of (example_store ! 6) ''capabilities'' = Some (PList [PStr ''Field work''])"
    by code_simp
  have l0: "5 < length example_store" "6 < length example_store"
    by (simp_all add: example_store_def)
  have l1: "5 < length (inject example_store 5 ''research-0'')"
    "6 < length (inject example_store 6 ''research-1'')"
    using l0 inject_length [of example_store 5 "''research-0''"]
      inject_length [of example_store 6 "''research-1''"] by simp_all
  from default_capabilities_injected [OF load_example g0] c0 l0 l1
  have r0: "map_of (inject example_store 5 ''research-0'' ! 5) ''capabilities'' =
       Some (PList [PStr ''Strategic vision and planning'',
                    PStr ''Technical implementation expertise'',
                    PStr ''Cross-functional team leadership'',
                    PStr ''Innovation and creative problem-solving''])"
    by (auto simp: deref_def)
  from default_capabilities_injected [OF load_example g1] c1 l0 l1
  have r1: "map_of (inject example_store 6 ''research-1'' ! 6) ''capabilities'' =
       Some (PList [PStr ''Field work''])"
    by (auto simp: deref_def)
  from load_example g0 g1 c0 c1 r0 r1 show ?thesis by simp
qed

section \<open>The projects of a category\<close>






end
